theory Spec2Isabelle
  imports Complex_Main
begin

section \<open>Strings\<close>

text \<open>
  A JavaScript string is a sequence of UTF-16 code units. The regular expressions and
  \<^verbatim>\<open>trim\<close> of the sources look at characters outside Latin-1, so a string is modelled
  as the list of its code units; \<open>js\<close> embeds an ASCII literal.
\<close>

type_synonym code_unit = nat
type_synonym jsstring = "code_unit list"

definition js :: "string \<Rightarrow> jsstring" where
  "js s = map of_char s"

text \<open>Truthiness of a value that is a string, \<^verbatim>\<open>undefined\<close> or \<^verbatim>\<open>null\<close>.\<close>

definition truthy :: "jsstring option \<Rightarrow> bool" where
  "truthy v = (case v of None \<Rightarrow> False | Some s \<Rightarrow> s \<noteq> [])"

section \<open>Segment model (types.ts)\<close>

record ThreadSegment =
  seg_id :: jsstring
  seg_text :: jsstring

record ThreadPayload =
  title :: jsstring
  authorHandle :: "jsstring option"
  sourceUrl :: "jsstring option"
  payload_segments :: "ThreadSegment list"

section \<open>Text cleaning and the local path (Button.tsx)\<close>

text \<open>
  The characters matched by \<^verbatim>\<open>\s\<close> and removed by \<^verbatim>\<open>trim\<close>: ECMAScript's
  WhiteSpace (tab, VT, FF, space, NBSP, the other space separators, BOM) and
  LineTerminator (LF, CR, LS, PS).
\<close>

definition is_space :: "code_unit \<Rightarrow> bool" where
  "is_space c =
     (c = 9 \<or> c = 10 \<or> c = 11 \<or> c = 12 \<or> c = 13 \<or> c = 32 \<or> c = 160 \<or> c = 5760 \<or>
      (8192 \<le> c \<and> c \<le> 8202) \<or> c = 8232 \<or> c = 8233 \<or> c = 8239 \<or> c = 8287 \<or>
      c = 12288 \<or> c = 65279)"

definition trim :: "jsstring \<Rightarrow> jsstring" where
  "trim s = rev (dropWhile is_space (rev (dropWhile is_space s)))"

text \<open>\<^verbatim>\<open>.replace(/\s+/g, " ")\<close>: every maximal run of whitespace becomes one space.\<close>

function collapse_ws :: "jsstring \<Rightarrow> jsstring" where
  "collapse_ws [] = []"
| "collapse_ws (c # cs) =
     (if is_space c then 32 # collapse_ws (dropWhile is_space cs) else c # collapse_ws cs)"
  by pat_completeness auto
termination
  by (relation "measure length") (auto intro: le_imp_less_Suc length_dropWhile_le)

text \<open>
  One match of \<^verbatim>\<open>/https?:\/\/\S+/\<close> at the start of \<open>s\<close>: the matched text and the
  rest. \<open>strip_prefix p s\<close> is the rest of \<open>s\<close> after the literal \<open>p\<close>.
\<close>

fun strip_prefix :: "jsstring \<Rightarrow> jsstring \<Rightarrow> jsstring option" where
  "strip_prefix [] s = Some s"
| "strip_prefix (p # ps) [] = None"
| "strip_prefix (p # ps) (c # cs) = (if c = p then strip_prefix ps cs else None)"

definition non_space_run :: "jsstring \<Rightarrow> (jsstring \<times> jsstring) option" where
  "non_space_run s =
     (if takeWhile (\<lambda>c. \<not> is_space c) s = [] then None
      else Some (takeWhile (\<lambda>c. \<not> is_space c) s, dropWhile (\<lambda>c. \<not> is_space c) s))"

definition url_tail :: "jsstring \<Rightarrow> jsstring \<Rightarrow> (jsstring \<times> jsstring) option" where
  "url_tail scheme s =
     (case strip_prefix (js ''://'') s of
        None \<Rightarrow> None
      | Some r \<Rightarrow>
          (case non_space_run r of
             None \<Rightarrow> None
           | Some (run, rest) \<Rightarrow> Some (scheme @ js ''://'' @ run, rest)))"

definition url_match :: "jsstring \<Rightarrow> (jsstring \<times> jsstring) option" where
  "url_match s =
     (case strip_prefix (js ''http'') s of
        None \<Rightarrow> None
      | Some r \<Rightarrow>
          (case (case strip_prefix (js ''s'') r of
                   None \<Rightarrow> None
                 | Some r' \<Rightarrow> url_tail (js ''https'') r') of
             Some m \<Rightarrow> Some m
           | None \<Rightarrow> url_tail (js ''http'') r))"

lemma strip_prefix_length: "strip_prefix p s = Some r \<Longrightarrow> length s = length p + length r"
  by (induction p s rule: strip_prefix.induct) (auto split: if_splits)

lemma url_match_shorter: "url_match s = Some (u, rest) \<Longrightarrow> length rest < length s"
  by (auto simp: url_match_def url_tail_def non_space_run_def js_def
      split: option.splits if_splits dest!: strip_prefix_length
      intro: le_less_trans[OF length_dropWhile_le])

text \<open>\<^verbatim>\<open>.replace(/https?:\/\/\S+/g, f)\<close>: every match, left to right, is replaced by
  \<open>f\<close> of it.\<close>

function replace_urls :: "(jsstring \<Rightarrow> jsstring) \<Rightarrow> jsstring \<Rightarrow> jsstring" where
  "replace_urls f [] = []"
| "replace_urls f (c # cs) =
     (case url_match (c # cs) of
        Some (u, rest) \<Rightarrow> f u @ replace_urls f rest
      | None \<Rightarrow> c # replace_urls f cs)"
  by pat_completeness auto
termination
  by (relation "measure (\<lambda>(f, s). length s)") (auto dest: url_match_shorter)

definition cleanText :: "jsstring \<Rightarrow> jsstring" where
  "cleanText t = trim (replace_urls (\<lambda>u. u) (collapse_ws t))"

text \<open>\<^verbatim>\<open>text.split(/\n+/)\<close>: the pieces between the maximal runs of line feeds; a run at
  either end leaves an empty piece there, and the empty string gives one empty piece.\<close>

function split_newlines :: "jsstring \<Rightarrow> jsstring list" where
  "split_newlines [] = [[]]"
| "split_newlines (c # cs) =
     (if c = 10 then [] # split_newlines (dropWhile (\<lambda>x. x = 10) cs)
      else (case split_newlines cs of
              [] \<Rightarrow> [[c]]
            | p # ps \<Rightarrow> (c # p) # ps))"
  by pat_completeness auto
termination
  by (relation "measure length") (auto intro: le_imp_less_Suc length_dropWhile_le)

text \<open>A non-negative integer in a template literal: its decimal digits.\<close>

fun show_nat :: "nat \<Rightarrow> jsstring" where
  "show_nat n = (if n < 10 then [48 + n] else show_nat (n div 10) @ [48 + n mod 10])"

declare show_nat.simps [simp del]

definition normalizeDemoText :: "jsstring \<Rightarrow> ThreadSegment list" where
  "normalizeDemoText text_in =
     (let lines = filter (\<lambda>l. l \<noteq> []) (map trim (split_newlines text_in));
          segs = map (\<lambda>(i, t). \<lparr>seg_id = js ''demo-'' @ show_nat i, seg_text = t\<rparr>)
                     (enumerate 0 lines)
      in if segs \<noteq> [] then segs else [\<lparr>seg_id = js ''demo-0'', seg_text = trim text_in\<rparr>])"

text \<open>
  The lines of a text, in the words of the specification: what lies between one line
  feed and the next. Used to state what \<open>normalizeDemoText\<close> computes.
\<close>

fun lines_spec :: "jsstring \<Rightarrow> jsstring list" where
  "lines_spec [] = [[]]"
| "lines_spec (c # cs) =
     (if c = 10 then [] # lines_spec cs
      else (case lines_spec cs of
              [] \<Rightarrow> [[c]]
            | p # ps \<Rightarrow> (c # p) # ps))"

text \<open>Empty or whitespace-only.\<close>

definition blank :: "jsstring \<Rightarrow> bool" where
  "blank s = list_all is_space s"

text \<open>No character of the string is whitespace other than a single space between two
  other characters.\<close>

fun collapsed :: "jsstring \<Rightarrow> bool" where
  "collapsed [] = True"
| "collapsed [a] = (\<not> is_space a \<or> a = 32)"
| "collapsed (a # b # cs) =
     ((\<not> is_space a \<or> (a = 32 \<and> \<not> is_space b)) \<and> collapsed (b # cs))"

definition normalized :: "jsstring \<Rightarrow> bool" where
  "normalized s =
     (collapsed s \<and> (case s of [] \<Rightarrow> True | c # _ \<Rightarrow> \<not> is_space c \<and> \<not> is_space (last s)))"

section \<open>The remote path (Button.tsx, the thread route)\<close>

text \<open>
  \<^verbatim>\<open>url.match(/\/(status|statuses)\/(\d+)/i)\<close>, second group. With the \<^verbatim>\<open>i\<close> flag and
  no \<^verbatim>\<open>u\<close> flag a letter of the pattern matches its two ASCII cases only. At each
  position, leftmost first, the alternative \<^verbatim>\<open>status\<close> is tried before
  \<^verbatim>\<open>statuses\<close>; the digits are the longest run.
\<close>

definition to_lower :: "code_unit \<Rightarrow> code_unit" where
  "to_lower c = (if 65 \<le> c \<and> c \<le> 90 then c + 32 else c)"

definition is_digit :: "code_unit \<Rightarrow> bool" where
  "is_digit c = (48 \<le> c \<and> c \<le> 57)"

fun match_ci :: "jsstring \<Rightarrow> jsstring \<Rightarrow> jsstring option" where
  "match_ci [] s = Some s"
| "match_ci (p # ps) [] = None"
| "match_ci (p # ps) (c # cs) = (if to_lower c = p then match_ci ps cs else None)"

definition slash_digits :: "jsstring \<Rightarrow> jsstring option" where
  "slash_digits s =
     (case s of
        [] \<Rightarrow> None
      | c # cs \<Rightarrow>
          if c = 47 \<and> takeWhile is_digit cs \<noteq> [] then Some (takeWhile is_digit cs) else None)"

definition match_status_at :: "jsstring \<Rightarrow> jsstring option" where
  "match_status_at s =
     (case match_ci (js ''/status'') s of
        None \<Rightarrow> None
      | Some r \<Rightarrow>
          (case slash_digits r of
             Some d \<Rightarrow> Some d
           | None \<Rightarrow>
               (case match_ci (js ''es'') r of
                  None \<Rightarrow> None
                | Some r' \<Rightarrow> slash_digits r')))"

fun extractStatusId :: "jsstring \<Rightarrow> jsstring option" where
  "extractStatusId [] = match_status_at []"
| "extractStatusId (c # cs) =
     (case match_status_at (c # cs) of
        Some d \<Rightarrow> Some d
      | None \<Rightarrow> extractStatusId cs)"

text \<open>
  The upstream JSON, as far as the route reads it. A field that is absent or
  \<^verbatim>\<open>null\<close> is \<open>None\<close>; the fields are strings. \<^verbatim>\<open>created_at\<close> is carried as the
  number \<^verbatim>\<open>new Date(created_at).getTime()\<close> gives (a date that does not parse is not
  modelled).
\<close>

record x_user =
  name :: "jsstring option"
  username :: "jsstring option"

record root_tweet =
  root_text :: "jsstring option"
  conversation_id :: "jsstring option"
  author_id :: "jsstring option"

record root_json =
  rj_data :: "root_tweet option"
  rj_users :: "x_user list"

record tweet =
  t_id :: jsstring
  t_text :: "jsstring option"
  t_created_at :: int

text \<open>
  A \<^verbatim>\<open>fetch\<close> either rejects (the route does not catch it) or resolves to a response
  with its \<^verbatim>\<open>ok\<close> flag and the JSON of its body (\<open>None\<close> where the body does not parse:
  \<^verbatim>\<open>.json().catch(() => null)\<close>). For the search response the JSON is its \<^verbatim>\<open>data\<close>
  when that is an array, \<open>None\<close> otherwise.
\<close>

datatype 'a fetched = Rejected | Resolved bool "'a option"

datatype upstream_request =
  RootRequest jsstring jsstring
| SearchRequest jsstring jsstring

text \<open>The upstream API: from bearer token and post id, and from bearer token and the
  \<^verbatim>\<open>query\<close> parameter of the search URL (the encoded query), to what the fetch gives.\<close>

record upstream =
  fetch_root :: "jsstring \<Rightarrow> jsstring \<Rightarrow> root_json fetched"
  fetch_search :: "jsstring \<Rightarrow> jsstring \<Rightarrow> tweet list fetched"

datatype upstream_json = RootJson "root_json option" | SearchJson "tweet list option"

datatype json_body =
  ErrorBody jsstring "jsstring option" "upstream_json option"
| PayloadBody ThreadPayload "jsstring option" "upstream_json option"

text \<open>What the route gives back: a response with its HTTP status and body, or an
  exception that it does not catch: the \<^verbatim>\<open>URIError\<close> of \<^verbatim>\<open>encodeURIComponent\<close> or the error
  of a rejected fetch.\<close>

datatype route_error = URIError | FetchError

datatype outcome = Reply nat json_body | Throws route_error

definition user_name :: "x_user option \<Rightarrow> jsstring option" where
  "user_name user = (case user of None \<Rightarrow> None | Some u \<Rightarrow> name u)"

definition user_username :: "x_user option \<Rightarrow> jsstring option" where
  "user_username user = (case user of None \<Rightarrow> None | Some u \<Rightarrow> username u)"

definition or_empty :: "jsstring option \<Rightarrow> jsstring" where
  "or_empty v = (case v of None \<Rightarrow> [] | Some s \<Rightarrow> s)"

definition tweet_text :: "root_tweet option \<Rightarrow> jsstring option" where
  "tweet_text t = (case t of None \<Rightarrow> None | Some d \<Rightarrow> root_text d)"

definition author_handle :: "x_user option \<Rightarrow> jsstring option" where
  "author_handle user =
     (if truthy (user_username user) then Some (js ''@'' @ or_empty (user_username user)) else None)"

text \<open>The payload both degrade branches build: the root post only.\<close>

definition root_only :: "jsstring \<Rightarrow> jsstring \<Rightarrow> root_tweet option \<Rightarrow> x_user option \<Rightarrow> ThreadPayload" where
  "root_only url ident rootTweet user =
     \<lparr>title = (if truthy (user_name user) then or_empty (user_name user) @ js '' (1 post)''
               else js ''Thread (1 post)''),
      authorHandle = author_handle user,
      sourceUrl = Some url,
      payload_segments = [\<lparr>seg_id = ident, seg_text = cleanText (or_empty (tweet_text rootTweet))\<rparr>]\<rparr>"

text \<open>The payload of the full path, from the tweets of the search response.\<close>

definition thread_payload :: "jsstring \<Rightarrow> x_user option \<Rightarrow> tweet list \<Rightarrow> ThreadPayload" where
  "thread_payload url user tweets =
     (let segs = filter (\<lambda>s. length (seg_text s) > 0)
                   (map (\<lambda>t. \<lparr>seg_id = t_id t, seg_text = cleanText (or_empty (t_text t))\<rparr>)
                        (sort_key t_created_at tweets))
      in \<lparr>title = (if truthy (user_name user)
                    then or_empty (user_name user) @ js '' ('' @ show_nat (length segs) @ js '' posts)''
                    else js ''Thread ('' @ show_nat (length segs) @ js '' posts)''),
          authorHandle = author_handle user,
          sourceUrl = Some url,
          payload_segments = segs\<rparr>)"

definition missing_token_error :: jsstring where
  "missing_token_error =
     js ''Missing X_BEARER_TOKEN. Add it to your environment (local .env.local or Vercel env vars).''"

definition missing_token_hint :: jsstring where
  "missing_token_hint =
     js ''MVP UI still works if you paste text into the '' @ [39] @ js ''Demo Mode'' @ [39] @
     js '' box'' @ [8212] @ js ''no X API required.''"

definition search_warning :: jsstring where
  "search_warning =
     js ''Couldn'' @ [39] @
     js ''t access thread search on your X API plan. Returned the root post only.''"

definition or_empty_list :: "tweet list option \<Rightarrow> tweet list" where
  "or_empty_list v = (case v of None \<Rightarrow> [] | Some ts \<Rightarrow> ts)"

text \<open>\<^verbatim>\<open>rootJson?.data\<close>, \<^verbatim>\<open>rootJson?.includes?.users?.[0]\<close>,
  \<^verbatim>\<open>rootTweet?.conversation_id\<close> and \<^verbatim>\<open>rootTweet?.author_id\<close>.\<close>

definition json_data :: "root_json option \<Rightarrow> root_tweet option" where
  "json_data rootJson = (case rootJson of None \<Rightarrow> None | Some j \<Rightarrow> rj_data j)"

definition first_user :: "root_json option \<Rightarrow> x_user option" where
  "first_user rootJson =
     (case rootJson of
        None \<Rightarrow> None
      | Some j \<Rightarrow> (case rj_users j of [] \<Rightarrow> None | u # _ \<Rightarrow> Some u))"

definition tweet_conversation_id :: "root_tweet option \<Rightarrow> jsstring option" where
  "tweet_conversation_id t = (case t of None \<Rightarrow> None | Some d \<Rightarrow> conversation_id d)"

definition tweet_author_id :: "root_tweet option \<Rightarrow> jsstring option" where
  "tweet_author_id t = (case t of None \<Rightarrow> None | Some d \<Rightarrow> author_id d)"

text \<open>
  \<^verbatim>\<open>encodeURIComponent\<close>: the letters, the digits and \<^verbatim>\<open>-_.!~*'()\<close> stay; any other
  character is replaced by the bytes of its UTF-8 encoding, each as \<^verbatim>\<open>%XX\<close>. A leading
  surrogate with the trailing surrogate after it is one character; a surrogate on its own
  raises \<^verbatim>\<open>URIError\<close> (\<open>None\<close>).
\<close>

definition uri_unreserved :: "code_unit \<Rightarrow> bool" where
  "uri_unreserved c =
     ((65 \<le> c \<and> c \<le> 90) \<or> (97 \<le> c \<and> c \<le> 122) \<or> (48 \<le> c \<and> c \<le> 57) \<or>
      c = 45 \<or> c = 95 \<or> c = 46 \<or> c = 33 \<or> c = 126 \<or> c = 42 \<or> c = 39 \<or> c = 40 \<or> c = 41)"

definition leading_surrogate :: "code_unit \<Rightarrow> bool" where
  "leading_surrogate c = (55296 \<le> c \<and> c \<le> 56319)"

definition trailing_surrogate :: "code_unit \<Rightarrow> bool" where
  "trailing_surrogate c = (56320 \<le> c \<and> c \<le> 57343)"

definition utf8 :: "nat \<Rightarrow> nat list" where
  "utf8 cp =
     (if cp < 128 then [cp]
      else if cp < 2048 then [192 + cp div 64, 128 + cp mod 64]
      else if cp < 65536 then [224 + cp div 4096, 128 + (cp div 64) mod 64, 128 + cp mod 64]
      else [240 + cp div 262144, 128 + (cp div 4096) mod 64, 128 + (cp div 64) mod 64,
            128 + cp mod 64])"

definition hex_digit :: "nat \<Rightarrow> code_unit" where
  "hex_digit n = (if n < 10 then 48 + n else 55 + n)"

definition percent_byte :: "nat \<Rightarrow> jsstring" where
  "percent_byte b = [37, hex_digit (b div 16), hex_digit (b mod 16)]"

definition percent_encode :: "nat \<Rightarrow> jsstring" where
  "percent_encode cp = concat (map percent_byte (utf8 cp))"

fun encodeURIComponent :: "jsstring \<Rightarrow> jsstring option" where
  "encodeURIComponent [] = Some []"
| "encodeURIComponent (c # cs) =
     (if uri_unreserved c then map_option (\<lambda>r. c # r) (encodeURIComponent cs)
      else if leading_surrogate c then
        (case cs of
           [] \<Rightarrow> None
         | d # ds \<Rightarrow>
             if trailing_surrogate d
             then map_option
                    (\<lambda>r. percent_encode ((c - 55296) * 1024 + (d - 56320) + 65536) @ r)
                    (encodeURIComponent ds)
             else None)
      else if trailing_surrogate c then None
      else map_option (\<lambda>r. percent_encode c @ r) (encodeURIComponent cs))"

text \<open>The search query, before \<^verbatim>\<open>encodeURIComponent\<close>.\<close>

definition search_query :: "jsstring option \<Rightarrow> x_user option \<Rightarrow> jsstring" where
  "search_query conversationId user =
     js ''conversation_id:'' @ or_empty conversationId @ js '' from:'' @
     or_empty (user_username user)"

text \<open>
  The route handler. \<open>parsed\<close> is what \<^verbatim>\<open>InputSchema.safeParse\<close> makes of the request
  body: the \<^verbatim>\<open>url\<close> when the body is an object whose \<^verbatim>\<open>url\<close> is a string that the
  schema takes for a URL, \<open>None\<close> otherwise. \<open>token\<close> is \<^verbatim>\<open>process.env.X_BEARER_TOKEN\<close>.
  The result is the outcome and the upstream requests made, in order.
\<close>

definition POST ::
  "upstream \<Rightarrow> jsstring option \<Rightarrow> jsstring option \<Rightarrow> outcome \<times> upstream_request list" where
  "POST up token parsed =
     (case parsed of
        None \<Rightarrow> (Reply 400 (ErrorBody (js ''Invalid request. Expected { url }.'') None None), [])
      | Some url \<Rightarrow>
          if \<not> truthy (extractStatusId url)
          then (Reply 400 (ErrorBody (js ''Couldn'' @ [39] @ js ''t find a post ID in that URL.'')
                             None None), [])
          else if \<not> truthy token
          then (Reply 501 (ErrorBody missing_token_error (Some missing_token_hint) None), [])
          else
            (let ident = or_empty (extractStatusId url); tok = or_empty token in
             case fetch_root up tok ident of
               Rejected \<Rightarrow> (Throws FetchError, [RootRequest tok ident])
             | Resolved rootOk rootJson \<Rightarrow>
                 if \<not> rootOk
                 then (Reply 502 (ErrorBody (js ''X API error fetching root post.'') None
                                    (Some (RootJson rootJson))),
                       [RootRequest tok ident])
                 else
                   (let rootTweet = json_data rootJson;
                        user = first_user rootJson;
                        conversationId = tweet_conversation_id rootTweet;
                        authorId = tweet_author_id rootTweet
                    in if \<not> truthy conversationId \<or> \<not> truthy authorId
                       then (Reply 200 (PayloadBody (root_only url ident rootTweet user) None None),
                             [RootRequest tok ident])
                       else
                         (case encodeURIComponent (search_query conversationId user) of
                            None \<Rightarrow> (Throws URIError, [RootRequest tok ident])
                          | Some q \<Rightarrow>
                              (case fetch_search up tok q of
                                 Rejected \<Rightarrow>
                                   (Throws FetchError, [RootRequest tok ident, SearchRequest tok q])
                               | Resolved searchOk searchJson \<Rightarrow>
                                   if \<not> searchOk
                                   then (Reply 200 (PayloadBody (root_only url ident rootTweet user)
                                                      (Some search_warning)
                                                      (Some (SearchJson searchJson))),
                                         [RootRequest tok ident, SearchRequest tok q])
                                   else (Reply 200 (PayloadBody
                                                      (thread_payload url user
                                                         (or_empty_list searchJson))
                                                      None None),
                                         [RootRequest tok ident, SearchRequest tok q]))))))"

text \<open>An upstream for concrete runs: the root post \<open>rj\<close> is found, the search is refused.\<close>

definition upstream_root_only :: "root_json \<Rightarrow> upstream" where
  "upstream_root_only rj =
     \<lparr>fetch_root = (\<lambda>tok ident. Resolved True (Some rj)),
      fetch_search = (\<lambda>tok q. Resolved False None)\<rparr>"

text \<open>A text with runs of spaces, line feeds, a tab and a URL.\<close>

definition messy_text :: jsstring where
  "messy_text = js ''  see   https://t.co/x  now '' @ [10, 10, 9] @ js ''ok  ''"

text \<open>The pasted text \<^verbatim>\<open>"a\n\nb\nc"\<close>.\<close>

definition pasted_abc :: jsstring where
  "pasted_abc = js ''a'' @ [10, 10] @ js ''b'' @ [10] @ js ''c''"

text \<open>Two root responses: one without its \<^verbatim>\<open>data\<close> (the post was not found),
  one with a post that has no conversation id, both without users.\<close>

definition root_not_found :: root_json where
  "root_not_found = \<lparr>rj_data = None, rj_users = []\<rparr>"

definition root_no_conversation :: root_json where
  "root_no_conversation =
     \<lparr>rj_data = Some \<lparr>root_text = Some (js ''hello  world''), conversation_id = None,
                        author_id = Some (js ''7'')\<rparr>,
      rj_users = []\<rparr>"

definition root_in_conversation :: root_json where
  "root_in_conversation =
     \<lparr>rj_data = Some \<lparr>root_text = Some (js ''hello  world''), conversation_id = Some (js ''42''),
                        author_id = Some (js ''7'')\<rparr>,
      rj_users = [\<lparr>name = Some (js ''Alice''), username = Some (js ''alice'')\<rparr>]\<rparr>"

text \<open>A root response whose conversation id is a leading surrogate on its own, and an
  upstream that finds the root post \<open>rj\<close> and whose search fetch rejects.\<close>

definition root_lone_surrogate :: root_json where
  "root_lone_surrogate =
     \<lparr>rj_data = Some \<lparr>root_text = Some (js ''hello  world''), conversation_id = Some [55296],
                        author_id = Some (js ''7'')\<rparr>,
      rj_users = [\<lparr>name = Some (js ''Alice''), username = Some (js ''alice'')\<rparr>]\<rparr>"

definition upstream_search_rejected :: "root_json \<Rightarrow> upstream" where
  "upstream_search_rejected rj =
     \<lparr>fetch_root = (\<lambda>tok ident. Resolved True (Some rj)),
      fetch_search = (\<lambda>tok q. Rejected)\<rparr>"

definition alice_url :: jsstring where
  "alice_url = js ''https://x.com/alice/status/42''"

text \<open>The non-empty lines of a text after trimming, in the words of the specification.\<close>

definition trimmed_lines :: "jsstring \<Rightarrow> jsstring list" where
  "trimmed_lines t = filter (\<lambda>l. l \<noteq> []) (map trim (lines_spec t))"

section \<open>Playback engine (useSpeech.ts)\<close>

datatype SpeechStatus = idle | playing | paused | ended | error

record SpeechSynthesisVoice =
  v_voiceURI :: jsstring
  v_name :: jsstring
  v_lang :: jsstring

text \<open>
  An utterance object: the text, rate and voice given to the backend, and what the
  handlers bound to it in \<^verbatim>\<open>speakFrom\<close> have captured: \<^verbatim>\<open>startIndex\<close>, and the
  \<^verbatim>\<open>segments\<close> and \<^verbatim>\<open>voiceURI\<close> of the render that created it (the captured
  \<^verbatim>\<open>rate\<close> is \<open>u_rate\<close>).
\<close>

record utterance =
  u_text :: jsstring
  u_rate :: real
  u_voice :: "SpeechSynthesisVoice option"
  startIndex :: int
  c_segments :: "ThreadSegment list"
  c_voiceURI :: "jsstring option"

text \<open>
  The platform's \<^verbatim>\<open>SpeechSynthesis\<close> object, an external collaborator of the engine:
  the queue of submitted utterances (its head is the one in flight), the paused flag and
  the voices it reports. \<^verbatim>\<open>cancel\<close> empties the queue and leaves the paused flag alone,
  \<^verbatim>\<open>speak\<close> appends, \<^verbatim>\<open>pause\<close> and \<^verbatim>\<open>resume\<close> set and clear the flag.
\<close>

record SpeechSynthesis =
  synth_queue :: "utterance list"
  synth_paused :: bool
  getVoices :: "SpeechSynthesisVoice list"

definition synth_cancel :: "SpeechSynthesis \<Rightarrow> SpeechSynthesis" where
  "synth_cancel s = s\<lparr>synth_queue := []\<rparr>"

definition synth_speak :: "utterance \<Rightarrow> SpeechSynthesis \<Rightarrow> SpeechSynthesis" where
  "synth_speak u s = s\<lparr>synth_queue := synth_queue s @ [u]\<rparr>"

definition synth_pause :: "SpeechSynthesis \<Rightarrow> SpeechSynthesis" where
  "synth_pause s = s\<lparr>synth_paused := True\<rparr>"

definition synth_resume :: "SpeechSynthesis \<Rightarrow> SpeechSynthesis" where
  "synth_resume s = s\<lparr>synth_paused := False\<rparr>"

text \<open>
  The state of one \<^verbatim>\<open>useSpeech\<close> instance: the \<^verbatim>\<open>segments\<close> argument, the four
  \<^verbatim>\<open>useState\<close> cells and the two refs. \<open>synthRef = None\<close> is a null ref (no
  backend); otherwise it holds the backend object, whose state the engine's calls change.
  Indices are JavaScript numbers, modelled as unbounded integers.
\<close>

record engine =
  segments :: "ThreadSegment list"
  status :: SpeechStatus
  rate :: real
  voiceURI :: "jsstring option"
  index :: int
  synthRef :: "SpeechSynthesis option"
  utterRef :: "utterance option"

text \<open>\<^verbatim>\<open>segments[i]\<close>: \<^verbatim>\<open>undefined\<close> outside the array.\<close>

definition segment_at :: "ThreadSegment list \<Rightarrow> int \<Rightarrow> ThreadSegment option" where
  "segment_at segs i = (if 0 \<le> i \<and> i < int (length segs) then Some (segs ! nat i) else None)"

definition stop :: "engine \<Rightarrow> engine" where
  "stop st =
     (case synthRef st of
        None \<Rightarrow> st
      | Some synth \<Rightarrow> st\<lparr>synthRef := Some (synth_cancel synth), utterRef := None, status := idle\<rparr>)"

text \<open>
  \<^verbatim>\<open>speakFrom\<close>, with the values its closure reads from the render it belongs to
  (\<^verbatim>\<open>segments\<close>, \<^verbatim>\<open>rate\<close>, \<^verbatim>\<open>voiceURI\<close>) as arguments.
\<close>

definition speakFrom ::
  "ThreadSegment list \<Rightarrow> real \<Rightarrow> jsstring option \<Rightarrow> int \<Rightarrow> engine \<Rightarrow> engine" where
  "speakFrom segs r vuri start st =
     (case synthRef st of
        None \<Rightarrow> st\<lparr>status := error\<rparr>
      | Some synth0 \<Rightarrow>
          (let synth = synth_cancel synth0 in
           case segment_at segs start of
             None \<Rightarrow> st\<lparr>synthRef := Some synth, status := ended\<rparr>
           | Some seg \<Rightarrow>
               (let u = \<lparr>u_text = seg_text seg, u_rate = r,
                         u_voice = (if truthy vuri
                                    then find (\<lambda>vv. Some (v_voiceURI vv) = vuri) (getVoices synth)
                                    else None),
                         startIndex = start, c_segments = segs, c_voiceURI = vuri\<rparr>
                in st\<lparr>utterRef := Some u, index := start,
                       synthRef := Some (synth_speak u synth)\<rparr>)))"

text \<open>The three handlers \<^verbatim>\<open>speakFrom\<close> binds to the utterance it creates.\<close>

definition u_onstart :: "utterance \<Rightarrow> engine \<Rightarrow> engine" where
  "u_onstart u st = st\<lparr>status := playing\<rparr>"

definition u_onend :: "utterance \<Rightarrow> engine \<Rightarrow> engine" where
  "u_onend u st =
     (let next = startIndex u + 1 in
      if next < int (length (c_segments u))
      then speakFrom (c_segments u) (u_rate u) (c_voiceURI u) next (st\<lparr>index := next\<rparr>)
      else st\<lparr>status := ended\<rparr>)"

definition u_onerror :: "utterance \<Rightarrow> engine \<Rightarrow> engine" where
  "u_onerror u st = st\<lparr>status := error\<rparr>"

definition play :: "engine \<Rightarrow> engine" where
  "play st =
     (if segments st = [] then st
      else case synthRef st of
        None \<Rightarrow> st\<lparr>status := error\<rparr>
      | Some synth \<Rightarrow>
          if synth_paused synth
          then st\<lparr>synthRef := Some (synth_resume synth), status := playing\<rparr>
          else speakFrom (segments st) (rate st) (voiceURI st) (index st) st)"

definition pause :: "engine \<Rightarrow> engine" where
  "pause st =
     (case synthRef st of
        None \<Rightarrow> st
      | Some synth \<Rightarrow> st\<lparr>synthRef := Some (synth_pause synth), status := paused\<rparr>)"

definition restart :: "engine \<Rightarrow> engine" where
  "restart st = speakFrom (segments st) (rate st) (voiceURI st) 0 ((stop st)\<lparr>index := 0\<rparr>)"

definition skip :: "int \<Rightarrow> engine \<Rightarrow> engine" where
  "skip delta st =
     (if segments st = [] then st
      else (let next = min (max (index st + delta) 0) (int (length (segments st)) - 1)
            in speakFrom (segments st) (rate st) (voiceURI st) next (stop st)))"

text \<open>
  The backend signals the end of the utterance in flight: it leaves the queue and its
  \<^verbatim>\<open>onend\<close> handler runs. Nothing is in flight without a backend or with an empty queue.
\<close>

definition signal_end :: "engine \<Rightarrow> engine option" where
  "signal_end st =
     (case synthRef st of
        None \<Rightarrow> None
      | Some synth \<Rightarrow>
          (case synth_queue synth of
             [] \<Rightarrow> None
           | u # rest \<Rightarrow> Some (u_onend u (st\<lparr>synthRef := Some (synth\<lparr>synth_queue := rest\<rparr>)\<rparr>))))"

text \<open>
  An utterance for segment \<open>i\<close> of the engine's payload is the engine's current one and
  is the one in flight at the backend (the head of its queue).
\<close>

definition speaking :: "engine \<Rightarrow> int \<Rightarrow> bool" where
  "speaking st i =
     (case utterRef st of
        None \<Rightarrow> False
      | Some u \<Rightarrow>
          startIndex u = i \<and> c_segments u = segments st \<and>
          (case segment_at (segments st) i of
             None \<Rightarrow> False
           | Some seg \<Rightarrow> u_text u = seg_text seg) \<and>
          (case synthRef st of
             None \<Rightarrow> False
           | Some synth \<Rightarrow> (case synth_queue synth of [] \<Rightarrow> False | h # _ \<Rightarrow> h = u)))"

text \<open>The same, with the utterance being the only one the backend holds.\<close>

definition speaking_only :: "engine \<Rightarrow> int \<Rightarrow> bool" where
  "speaking_only st i =
     (speaking st i \<and>
      (case synthRef st of None \<Rightarrow> False | Some synth \<Rightarrow> length (synth_queue synth) = 1))"

text \<open>A three-segment payload and engines over it, for concrete runs.\<close>

definition segs3 :: "ThreadSegment list" where
  "segs3 = [\<lparr>seg_id = js ''demo-0'', seg_text = js ''a''\<rparr>,
            \<lparr>seg_id = js ''demo-1'', seg_text = js ''b''\<rparr>,
            \<lparr>seg_id = js ''demo-2'', seg_text = js ''c''\<rparr>]"

definition engine3 :: engine where
  "engine3 = \<lparr>segments = segs3, status = idle, rate = 1, voiceURI = None, index = 0,
               synthRef = Some \<lparr>synth_queue = [], synth_paused = False, getVoices = []\<rparr>,
               utterRef = None\<rparr>"

definition engine3_no_backend :: engine where
  "engine3_no_backend = engine3\<lparr>synthRef := None\<rparr>"

definition utter3 :: "int \<Rightarrow> utterance" where
  "utter3 i = \<lparr>u_text = seg_text (segs3 ! nat i), u_rate = 1, u_voice = None, startIndex = i,
               c_segments = segs3, c_voiceURI = None\<rparr>"

section \<open>Properties of the playback engine\<close>

lemmas engine_defs = speakFrom_def stop_def play_def pause_def skip_def restart_def
  u_onend_def u_onerror_def u_onstart_def signal_end_def
  synth_cancel_def synth_speak_def synth_pause_def synth_resume_def
  segment_at_def speaking_def speaking_only_def truthy_def Let_def

lemmas fixture_defs = engine3_def engine3_no_backend_def segs3_def utter3_def js_def

lemma speakFrom_speaking:
  assumes "synthRef st = Some s" and "segment_at segs i \<noteq> None" and "segments st = segs"
  shows "speaking_only (speakFrom segs r v i st) i \<and> index (speakFrom segs r v i st) = i
     \<and> status (speakFrom segs r v i st) = status st \<and> segments (speakFrom segs r v i st) = segs"
  using assms
  by (auto simp: speakFrom_def speaking_only_def speaking_def Let_def synth_cancel_def synth_speak_def
      split: option.splits)

lemma stop_backend:
  assumes "synthRef st = Some s"
  shows "synthRef (stop st) = Some (s\<lparr>synth_queue := []\<rparr>) \<and> utterRef (stop st) = None \<and>
         status (stop st) = idle \<and> index (stop st) = index st \<and> segments (stop st) = segments st"
  using assms by (simp add: stop_def synth_cancel_def)

lemma clamp_segment_at:
  assumes "segs \<noteq> []"
  shows "segment_at segs (min (max i 0) (int (length segs) - 1)) \<noteq> None"
  using assms by (cases segs) (auto simp: segment_at_def)

text \<open>
  C1. Whenever the utterance for segment \<open>k\<close> of the payload is the engine's current one
  and is in flight, the backend's completion signal is handled: if \<open>k + 1 < L\<close> the engine
  sets \<open>index\<close> to \<open>k + 1\<close> and submits a new utterance for segment \<open>k + 1\<close>, with no
  user action; if \<open>k = L - 1\<close> it sets the status to \<open>ended\<close>.
\<close>

theorem auto_advance:
  assumes "speaking st k"
  shows "\<exists>st'. signal_end st = Some st' \<and> segments st' = segments st \<and>
           (k + 1 < int (length (segments st)) \<longrightarrow>
              index st' = k + 1 \<and> speaking_only st' (k + 1) \<and> status st' = status st) \<and>
           (k = int (length (segments st)) - 1 \<longrightarrow> status st' = ended \<and> index st' = index st)"
proof -
  from assms obtain u s rest where
    u: "utterRef st = Some u" "startIndex u = k" "c_segments u = segments st"
    and k: "segment_at (segments st) k \<noteq> None"
    and s: "synthRef st = Some s" "synth_queue s = u # rest"
    by (auto simp: speaking_def split: option.splits list.splits)
  let ?st0 = "st\<lparr>synthRef := Some (s\<lparr>synth_queue := rest\<rparr>)\<rparr>"
  have se: "signal_end st = Some (u_onend u ?st0)"
    using s by (simp add: signal_end_def)
  show ?thesis
  proof (cases "k + 1 < int (length (segments st))")
    case True
    from k have "0 \<le> k" by (simp add: segment_at_def split: if_splits)
    with True have "segment_at (segments st) (k + 1) \<noteq> None"
      by (simp add: segment_at_def)
    from speakFrom_speaking[OF _ this, of "?st0\<lparr>index := k + 1\<rparr>" _ "u_rate u" "c_voiceURI u"]
    show ?thesis using True u se
      by (simp add: u_onend_def Let_def)
  next
    case False
    then show ?thesis using u se
      by (simp add: u_onend_def Let_def)
  qed
qed

theorem auto_advance_witness:
  "speaking (play engine3) 0 \<and>
   (\<exists>st'. signal_end (play engine3) = Some st' \<and> index st' = 1 \<and> speaking_only st' 1) \<and>
   speaking (skip 2 engine3) 2 \<and>
   (\<exists>st'. signal_end (skip 2 engine3) = Some st' \<and> status st' = ended)"
proof -
  have a: "speaking (play engine3) 0" and b: "speaking (skip 2 engine3) 2"
    by (simp_all add: engine_defs fixture_defs)
  have l: "length (segments (play engine3)) = 3" "length (segments (skip 2 engine3)) = 3"
    by (simp_all add: engine_defs fixture_defs)
  from auto_advance[OF a] auto_advance[OF b] a b l show ?thesis
    by auto
qed




text \<open>
  C3, as the code has it. The handlers carry no guard: \<^verbatim>\<open>onerror\<close> sets the status to
  \<open>error\<close> and \<^verbatim>\<open>onend\<close> advances or ends, in whatever state they are invoked. What the
  engine does is cancel at the backend before it submits: after \<open>stop\<close> the backend's
  queue is empty and no utterance is current; after \<open>speakFrom\<close>, \<open>skip\<close> and \<open>restart\<close>
  the queue holds the new utterance and nothing else, so no earlier utterance is left at
  the backend to complete.
\<close>

theorem cancel_before_submit:
  "(synthRef st \<noteq> None \<longrightarrow>
      map_option synth_queue (synthRef (stop st)) = Some [] \<and> utterRef (stop st) = None) \<and>
   (synthRef st \<noteq> None \<and> segments st = segs \<and> segment_at segs i \<noteq> None \<longrightarrow>
      speaking_only (speakFrom segs r v i st) i) \<and>
   (synthRef st \<noteq> None \<and> segments st \<noteq> [] \<longrightarrow>
      speaking_only (skip delta st) (index (skip delta st)) \<and> speaking_only (restart st) 0) \<and>
   status (u_onerror u st) = error \<and>
   (startIndex u + 1 < int (length (c_segments u)) \<longrightarrow>
      index (u_onend u st) = startIndex u + 1) \<and>
   (\<not> startIndex u + 1 < int (length (c_segments u)) \<longrightarrow> status (u_onend u st) = ended)"
proof (intro conjI impI)
  show "status (u_onerror u st) = error" by (simp add: u_onerror_def)
next
  assume "synthRef st \<noteq> None"
  then obtain s where "synthRef st = Some s" by auto
  from stop_backend[OF this]
  show "map_option synth_queue (synthRef (stop st)) = Some []" "utterRef (stop st) = None"
    by simp_all
next
  assume "synthRef st \<noteq> None \<and> segments st = segs \<and> segment_at segs i \<noteq> None"
  then show "speaking_only (speakFrom segs r v i st) i"
    using speakFrom_speaking[of st _ segs i r v] by auto
next
  assume a: "synthRef st \<noteq> None \<and> segments st \<noteq> []"
  then obtain s where s: "synthRef st = Some s" by auto
  have st: "synthRef (stop st) = Some (s\<lparr>synth_queue := []\<rparr>)" "segments (stop st) = segments st"
    using stop_backend[OF s] by simp_all
  let ?n = "min (max (index st + delta) 0) (int (length (segments st)) - 1)"
  have "segment_at (segments st) ?n \<noteq> None"
    using a by (simp add: clamp_segment_at)
  from speakFrom_speaking[OF st(1) this st(2), of "rate st" "voiceURI st"]
  show "speaking_only (skip delta st) (index (skip delta st))"
    using a by (simp add: skip_def Let_def)
  have "segment_at (segments st) 0 \<noteq> None"
    using a by (simp add: segment_at_def)
  from speakFrom_speaking[of "(stop st)\<lparr>index := 0\<rparr>" "s\<lparr>synth_queue := []\<rparr>" "segments st" 0
      "rate st" "voiceURI st"] this st
  show "speaking_only (restart st) 0"
    by (simp add: restart_def)
next
  assume "startIndex u + 1 < int (length (c_segments u))"
  then show "index (u_onend u st) = startIndex u + 1"
    by (auto simp: u_onend_def speakFrom_def Let_def segment_at_def synth_cancel_def split: option.splits)
next
  assume "\<not> startIndex u + 1 < int (length (c_segments u))"
  then show "status (u_onend u st) = ended"
    by (simp add: u_onend_def Let_def)
qed

theorem cancel_before_submit_witness:
  "synthRef (play engine3) \<noteq> None \<and> segments (play engine3) = segs3 \<and>
   segment_at segs3 2 \<noteq> None \<and> segs3 \<noteq> [] \<and>
   map_option synth_queue (synthRef (stop (play engine3))) = Some [] \<and>
   utterRef (stop (play engine3)) = None \<and>
   map_option synth_queue (synthRef (speakFrom segs3 1 None 2 (play engine3))) = Some [utter3 2] \<and>
   map_option synth_queue (synthRef (skip 1 (play engine3))) = Some [utter3 1] \<and>
   map_option synth_queue (synthRef (restart (skip 1 (play engine3)))) = Some [utter3 0] \<and>
   startIndex (utter3 0) + 1 < int (length (c_segments (utter3 0))) \<and>
   index (u_onend (utter3 0) (stop (play engine3))) = 1 \<and>
   \<not> startIndex (utter3 2) + 1 < int (length (c_segments (utter3 2))) \<and>
   status (u_onend (utter3 2) (stop (play engine3))) = ended"
  using cancel_before_submit[of "play engine3" segs3 2 1 None 1 "utter3 0"]
    cancel_before_submit[of "stop (play engine3)" segs3 2 1 None 1 "utter3 2"]
  by (simp add: engine_defs fixture_defs)

text \<open>
  C3 as stated fails: after \<open>stop\<close> has cancelled the utterance for segment 0 (status
  \<open>idle\<close>, index 0), its completion callback, if the backend still delivers it, sets the
  index to 1 and submits segment 1, and its error callback sets the status to \<open>error\<close>;
  after \<open>skip 2\<close> and \<open>skip (-1)\<close>, the completion callback of the superseded utterance
  for segment 2 ends the playback of segment 1.
\<close>

theorem stale_callback_counterexample:
  "utterRef (play engine3) = Some (utter3 0) \<and>
   utterRef (stop (play engine3)) = None \<and>
   synthRef (stop (play engine3)) = synthRef engine3 \<and>
   index (stop (play engine3)) = 0 \<and>
   status (stop (play engine3)) = idle \<and>
   index (u_onend (utter3 0) (stop (play engine3))) = 1 \<and>
   speaking_only (u_onend (utter3 0) (stop (play engine3))) 1 \<and>
   status (u_onerror (utter3 0) (stop (play engine3))) = error \<and>
   utterRef (skip 2 engine3) = Some (utter3 2) \<and>
   utterRef (skip (- 1) (skip 2 engine3)) = Some (utter3 1) \<and>
   status (u_onstart (utter3 1) (skip (- 1) (skip 2 engine3))) = playing \<and>
   status (u_onend (utter3 2) (u_onstart (utter3 1) (skip (- 1) (skip 2 engine3)))) = ended"
  by (simp add: engine_defs fixture_defs)

text \<open>
  C4. In a state with status \<open>playing\<close> and the utterance for segment \<open>k\<close> in flight at
  index \<open>k\<close>, \<open>pause\<close> gives status \<open>paused\<close>, and \<open>play\<close> after it gives status
  \<open>playing\<close> again with the backend resumed: the index is still \<open>k\<close>, the current
  utterance and the backend's queue are the same, so nothing was submitted anew.
\<close>

theorem pause_then_play:
  assumes "speaking st k" and "status st = playing" and "index st = k"
  shows "status (pause st) = paused \<and>
         status (play (pause st)) = playing \<and>
         index (play (pause st)) = k \<and>
         utterRef (play (pause st)) = utterRef st \<and>
         map_option synth_queue (synthRef (play (pause st))) = map_option synth_queue (synthRef st) \<and>
         map_option synth_paused (synthRef (play (pause st))) = Some False \<and>
         speaking (play (pause st)) k"
proof -
  from assms(1) obtain s where s: "synthRef st = Some s"
    by (auto simp: speaking_def split: option.splits)
  from assms(1) have ne: "segments st \<noteq> []"
    by (auto simp: speaking_def segment_at_def split: option.splits if_splits)
  have p: "pause st = st\<lparr>synthRef := Some (s\<lparr>synth_paused := True\<rparr>), status := paused\<rparr>"
    using s by (simp add: pause_def synth_pause_def)
  have pp: "play (pause st) = st\<lparr>synthRef := Some (s\<lparr>synth_paused := False\<rparr>), status := playing\<rparr>"
    using ne by (simp add: p play_def synth_resume_def)
  show ?thesis
    unfolding pp using assms s by (simp add: p speaking_def split: option.splits)
qed

theorem pause_then_play_witness:
  "speaking (u_onstart (utter3 0) (play engine3)) 0 \<and>
   status (u_onstart (utter3 0) (play engine3)) = playing \<and>
   index (u_onstart (utter3 0) (play engine3)) = 0 \<and>
   status (pause (u_onstart (utter3 0) (play engine3))) = paused \<and>
   status (play (pause (u_onstart (utter3 0) (play engine3)))) = playing \<and>
   index (play (pause (u_onstart (utter3 0) (play engine3)))) = 0 \<and>
   utterRef (play (pause (u_onstart (utter3 0) (play engine3)))) = Some (utter3 0) \<and>
   map_option synth_queue (synthRef (play (pause (u_onstart (utter3 0) (play engine3)))))
     = Some [utter3 0]"
  using pause_then_play[of "u_onstart (utter3 0) (play engine3)" 0]
  by (simp add: engine_defs fixture_defs)

section \<open>Properties of text cleaning\<close>

lemma strip_prefix_append: "strip_prefix p s = Some r \<Longrightarrow> s = p @ r"
  by (induction p s rule: strip_prefix.induct) (auto split: if_splits)

lemma url_tail_append: "url_tail scheme s = Some (u, rest) \<Longrightarrow> scheme @ s = u @ rest"
  by (auto simp: url_tail_def non_space_run_def split: option.splits if_splits
      dest!: strip_prefix_append)

lemma url_match_append: "url_match s = Some (u, rest) \<Longrightarrow> s = u @ rest"
  by (auto simp: url_match_def js_def split: option.splits
      dest!: strip_prefix_append url_tail_append)

lemma replace_urls_same: "replace_urls (\<lambda>u. u) s = s"
  by (induction "\<lambda>u::jsstring. u" s rule: replace_urls.induct)
     (auto split: option.splits dest: url_match_append)

lemma cleanText_eq: "cleanText t = trim (collapse_ws t)"
  by (simp add: cleanText_def replace_urls_same)

lemma is_space_32: "is_space 32"
  by (simp add: is_space_def)

lemma collapse_ws_head:
  "collapse_ws s = a # r \<Longrightarrow> s \<noteq> [] \<and> (is_space a \<longleftrightarrow> is_space (hd s))"
  by (cases s) (auto simp: is_space_32 split: if_splits)

lemma dropWhile_head: "dropWhile P xs = a # r \<Longrightarrow> \<not> P a"
  by (metis dropWhile_eq_Cons_conv)

lemma collapsed_Cons:
  "collapsed (a # s) \<longleftrightarrow> (\<not> is_space a \<or> (a = 32 \<and> (s = [] \<or> \<not> is_space (hd s)))) \<and> collapsed s"
  by (cases s) auto

lemma collapsed_collapse_ws: "collapsed (collapse_ws s)"
proof (induction s rule: collapse_ws.induct)
  case 1
  show ?case by simp
next
  case (2 c cs)
  show ?case
  proof (cases "is_space c")
    case True
    have "collapse_ws (dropWhile is_space cs) = [] \<or> \<not> is_space (hd (collapse_ws (dropWhile is_space cs)))"
    proof (cases "collapse_ws (dropWhile is_space cs)")
      case Nil
      then show ?thesis by simp
    next
      case (Cons a r)
      from collapse_ws_head[OF Cons] obtain b q where "dropWhile is_space cs = b # q" "is_space a \<longleftrightarrow> is_space b"
        by (cases "dropWhile is_space cs") auto
      then show ?thesis using Cons dropWhile_head[of is_space cs b q] by simp
    qed
    with True 2 show ?thesis by (simp add: collapsed_Cons)
  next
    case False
    with 2 show ?thesis by (simp add: collapsed_Cons)
  qed
qed

lemma collapse_ws_collapsed: "collapsed s \<Longrightarrow> collapse_ws s = s"
proof (induction s rule: collapse_ws.induct)
  case 1
  show ?case by simp
next
  case (2 c cs)
  show ?case
  proof (cases "is_space c")
    case True
    with 2(3) have c: "c = 32" "cs = [] \<or> \<not> is_space (hd cs)" "collapsed cs"
      by (auto simp: collapsed_Cons)
    then have "dropWhile is_space cs = cs" by (cases cs) auto
    with 2(1)[OF True] c True show ?thesis by simp
  next
    case False
    with 2 show ?thesis by (simp add: collapsed_Cons)
  qed
qed

lemma collapsed_append:
  "collapsed (xs @ ys) \<longleftrightarrow>
     collapsed xs \<and> collapsed ys \<and> (xs = [] \<or> ys = [] \<or> \<not> is_space (last xs) \<or> \<not> is_space (hd ys))"
proof (induction xs)
  case Nil
  show ?case by simp
next
  case (Cons a xs)
  show ?case
  proof (cases xs)
    case Nil
    then show ?thesis by (cases ys) (auto simp: collapsed_Cons is_space_32)
  next
    case (Cons b zs)
    with Cons.IH show ?thesis by (auto simp: collapsed_Cons)
  qed
qed

lemma collapsed_rev: "collapsed (rev s) = collapsed s"
proof (induction s)
  case Nil
  show ?case by simp
next
  case (Cons a s)
  show ?case
    by (auto simp: collapsed_append collapsed_Cons Cons.IH last_rev)
qed

lemma collapsed_dropWhile: "collapsed s \<Longrightarrow> collapsed (dropWhile P s)"
  by (induction s) (auto simp: collapsed_Cons)

lemma collapsed_trim: "collapsed s \<Longrightarrow> collapsed (trim s)"
  by (simp add: trim_def collapsed_rev collapsed_dropWhile)

lemma dropWhile_idem: "dropWhile P (dropWhile P xs) = dropWhile P xs"
  by (induction xs) auto

lemma trim_ends: "trim s = [] \<or> (\<not> is_space (hd (trim s)) \<and> \<not> is_space (last (trim s)))"
proof (cases "trim s = []")
  case True then show ?thesis by simp
next
  case False
  let ?d = "dropWhile is_space s"
  let ?e = "dropWhile is_space (rev ?d)"
  from False have ne: "?e \<noteq> []" by (simp add: trim_def)
  then have l: "\<not> is_space (hd ?e)" by (metis hd_dropWhile)
  have "?d \<noteq> []" using ne by (cases "?d = []") simp_all
  then have h: "\<not> is_space (hd ?d)" by (metis hd_dropWhile)
  have "last ?e = last (rev ?d)" using ne by (metis last_appendR takeWhile_dropWhile_id)
  then have "last ?e = hd ?d" using \<open>?d \<noteq> []\<close> by (simp add: last_rev)
  with h l ne show ?thesis by (simp add: trim_def hd_rev last_rev)
qed

lemma dropWhile_fixed: "xs = [] \<or> \<not> P (hd xs) \<Longrightarrow> dropWhile P xs = xs"
  by (cases xs) auto

lemma trim_fixed: "s = [] \<or> (\<not> is_space (hd s) \<and> \<not> is_space (last s)) \<Longrightarrow> trim s = s"
proof (cases s)
  case Nil then show ?thesis by (simp add: trim_def)
next
  case (Cons a r)
  assume "s = [] \<or> (\<not> is_space (hd s) \<and> \<not> is_space (last s))"
  with Cons have a: "\<not> is_space a" and l: "\<not> is_space (last s)" by auto
  have "dropWhile is_space s = s" using a Cons by simp
  moreover have "\<not> is_space (hd (rev s))" using l by (simp add: hd_rev)
  then have "dropWhile is_space (rev s) = rev s"
    by (rule dropWhile_fixed[OF disjI2])
  ultimately show ?thesis by (simp add: trim_def)
qed

lemma trim_trim: "trim (trim s) = trim s"
  using trim_ends[of s] by (rule trim_fixed)

lemma normalized_cleanText: "normalized (cleanText s)"
  using trim_ends[of "collapse_ws s"] collapsed_trim[OF collapsed_collapse_ws[of s]]
  by (auto simp: normalized_def cleanText_eq split: list.splits)

text \<open>
  C10. \<open>cleanText\<close> is idempotent, and each of its results is normalized: no whitespace
  at either end, no two whitespace characters in a row (and no whitespace character
  other than the space).
\<close>

theorem cleanText_idempotent: "cleanText (cleanText s) = cleanText s \<and> normalized (cleanText s)"
proof
  have "collapse_ws (trim (collapse_ws s)) = trim (collapse_ws s)"
    by (rule collapse_ws_collapsed) (rule collapsed_trim, rule collapsed_collapse_ws)
  then show "cleanText (cleanText s) = cleanText s"
    by (simp add: cleanText_eq trim_trim)
  show "normalized (cleanText s)" by (rule normalized_cleanText)
qed

theorem cleanText_idempotent_witness:
  "cleanText messy_text = js ''see https://t.co/x now ok'' \<and>
   cleanText (js ''see https://t.co/x now ok'') = js ''see https://t.co/x now ok'' \<and>
   normalized (js ''see https://t.co/x now ok'')"
proof -
  have e: "cleanText messy_text = js ''see https://t.co/x now ok''"
    by (simp add: messy_text_def cleanText_def trim_def is_space_def url_match_def url_tail_def
        non_space_run_def js_def)
  from cleanText_idempotent[of messy_text] show ?thesis
    unfolding e by simp
qed

section \<open>Properties of the local path\<close>

lemma show_nat_nonempty: "show_nat n \<noteq> []"
  by (subst show_nat.simps) simp

lemma show_nat_inj: "show_nat n = show_nat m \<Longrightarrow> n = m"
proof (induction n arbitrary: m rule: show_nat.induct)
  case (1 n)
  show ?case
  proof (cases "n < 10")
    case True
    then have n: "show_nat n = [48 + n]" by (subst show_nat.simps) simp
    show ?thesis
    proof (cases "m < 10")
      case True
      then have "show_nat m = [48 + m]" by (subst show_nat.simps) simp
      with n 1(2) show ?thesis by simp
    next
      case False
      then have "show_nat m = show_nat (m div 10) @ [48 + m mod 10]"
        by (subst show_nat.simps) simp
      with n 1(2) show_nat_nonempty[of "m div 10"] show ?thesis by simp
    qed
  next
    case False
    then have n: "show_nat n = show_nat (n div 10) @ [48 + n mod 10]"
      by (subst show_nat.simps) simp
    show ?thesis
    proof (cases "m < 10")
      case True
      then have "show_nat m = [48 + m]" by (subst show_nat.simps) simp
      with n 1(2) show_nat_nonempty[of "n div 10"] show ?thesis by simp
    next
      case m: False
      then have "show_nat m = show_nat (m div 10) @ [48 + m mod 10]"
        by (subst show_nat.simps) simp
      with n 1(2) have "show_nat (n div 10) = show_nat (m div 10)" "n mod 10 = m mod 10"
        by simp_all
      with 1(1)[OF False] have "n div 10 = m div 10" "n mod 10 = m mod 10" by simp_all
      then show ?thesis by (metis div_mult_mod_eq)
    qed
  qed
qed

lemma lines_spec_dropWhile:
  "filter (\<lambda>l. l \<noteq> []) (lines_spec (dropWhile (\<lambda>x. x = 10) cs)) = filter (\<lambda>l. l \<noteq> []) (lines_spec cs)"
  by (induction cs) auto

lemma lines_spec_nonempty: "lines_spec s \<noteq> []"
  by (induction s) (auto split: list.splits)

lemma split_newlines_nonempty: "split_newlines s \<noteq> []"
  by (induction s rule: split_newlines.induct) (auto split: list.splits)

lemma split_newlines_lines:
  "hd (split_newlines s) = hd (lines_spec s) \<and>
   filter (\<lambda>l. l \<noteq> []) (tl (split_newlines s)) = filter (\<lambda>l. l \<noteq> []) (tl (lines_spec s))"
proof (induction s rule: split_newlines.induct)
  case 1
  show ?case by simp
next
  case (2 c cs)
  show ?case
  proof (cases "c = 10")
    case True
    let ?d = "dropWhile (\<lambda>x. x = 10) cs"
    have "filter (\<lambda>l. l \<noteq> []) (split_newlines ?d) = filter (\<lambda>l. l \<noteq> []) (lines_spec ?d)"
      using 2(1)[OF True] split_newlines_nonempty[of ?d] lines_spec_nonempty[of ?d]
      by (cases "split_newlines ?d"; cases "lines_spec ?d") auto
    with True show ?thesis by (simp add: lines_spec_dropWhile)
  next
    case False
    with 2(2)[OF False] split_newlines_nonempty[of cs] lines_spec_nonempty[of cs]
    show ?thesis by (cases "split_newlines cs"; cases "lines_spec cs") auto
  qed
qed

lemma filter_split_newlines:
  "filter (\<lambda>l. l \<noteq> []) (split_newlines s) = filter (\<lambda>l. l \<noteq> []) (lines_spec s)"
  using split_newlines_lines[of s] split_newlines_nonempty[of s] lines_spec_nonempty[of s]
  by (cases "split_newlines s"; cases "lines_spec s") auto

lemma trim_Nil: "trim [] = []"
  by (simp add: trim_def)

lemma filter_map_trim:
  "filter (\<lambda>l. l \<noteq> []) (map trim xs) = filter (\<lambda>l. l \<noteq> []) (map trim (filter (\<lambda>l. l \<noteq> []) xs))"
  by (induction xs) (auto simp: trim_Nil)

lemma source_lines: "filter (\<lambda>l. l \<noteq> []) (map trim (split_newlines t)) = trimmed_lines t"
  unfolding trimmed_lines_def
  by (subst filter_map_trim, subst filter_split_newlines, subst filter_map_trim[symmetric]) simp

lemma map_enumerate_text:
  "map seg_text (map (\<lambda>(i, t). \<lparr>seg_id = f i, seg_text = t\<rparr>) (enumerate n ls)) = ls"
proof -
  have "map seg_text (map (\<lambda>(i, t). \<lparr>seg_id = f i, seg_text = t\<rparr>) (enumerate n ls))
        = map snd (enumerate n ls)"
    by (simp add: case_prod_beta comp_def)
  then show ?thesis by (simp only: map_snd_enumerate)
qed

lemma map_enumerate_id:
  "map seg_id (map (\<lambda>(i, t). \<lparr>seg_id = f i, seg_text = t\<rparr>) (enumerate n ls))
   = map f [n..<n + length ls]"
proof -
  have "map seg_id (map (\<lambda>(i, t). \<lparr>seg_id = f i, seg_text = t\<rparr>) (enumerate n ls))
        = map (\<lambda>x. f (fst x)) (enumerate n ls)"
    by (simp add: case_prod_beta comp_def)
  also have "\<dots> = map f (map fst (enumerate n ls))"
    by (simp only: map_map comp_def)
  also have "\<dots> = map f [n..<n + length ls]"
    by (simp only: map_fst_enumerate)
  finally show ?thesis .
qed

lemma demo_ids_distinct: "distinct (map (\<lambda>i. js ''demo-'' @ show_nat i) [n..<m])"
  by (auto simp: distinct_map inj_on_def dest: show_nat_inj)

lemma trim_nonempty_not_blank: "trim s \<noteq> [] \<Longrightarrow> \<not> blank (trim s)"
  using trim_ends[of s] by (cases "trim s") (auto simp: blank_def)

lemma trim_empty_iff: "trim s = [] \<longleftrightarrow> blank s"
proof -
  have "dropWhile is_space s = [] \<longleftrightarrow> list_all is_space s"
    by (induction s) auto
  moreover have "trim s = [] \<longleftrightarrow> dropWhile is_space s = []"
  proof (cases "dropWhile is_space s")
    case Nil show ?thesis unfolding trim_def Nil by simp
  next
    case (Cons a r)
    then have "\<not> is_space a" by (rule dropWhile_head)
    then have "dropWhile is_space (rev (a # r)) \<noteq> []"
      by (auto simp: dropWhile_eq_Nil_conv)
    with Cons show ?thesis by (simp add: trim_def)
  qed
  ultimately show ?thesis by (simp add: blank_def)
qed

lemma normalizeDemoText_cases:
  "(trimmed_lines t \<noteq> [] \<longrightarrow>
      normalizeDemoText t =
        map (\<lambda>(i, l). \<lparr>seg_id = js ''demo-'' @ show_nat i, seg_text = l\<rparr>) (enumerate 0 (trimmed_lines t))) \<and>
   (trimmed_lines t = [] \<longrightarrow> normalizeDemoText t = [\<lparr>seg_id = js ''demo-0'', seg_text = trim t\<rparr>])"
  by (cases "trimmed_lines t") (simp_all add: normalizeDemoText_def source_lines Let_def)

text \<open>
  C5. When the pasted text has \<open>N \<ge> 1\<close> lines that are non-empty after trimming,
  \<open>normalizeDemoText\<close> gives exactly \<open>N\<close> segments, in the order of the lines, each with
  the trimmed line as its text (so none empty) and with the identifier \<^verbatim>\<open>demo-i\<close> of its
  position, all distinct. When no such line remains, the result is the one segment
  \<^verbatim>\<open>demo-0\<close> holding the whole trimmed input.
\<close>

theorem normalizeDemoText_lines:
  "(trimmed_lines t \<noteq> [] \<longrightarrow>
      length (normalizeDemoText t) = length (trimmed_lines t) \<and>
      map seg_text (normalizeDemoText t) = trimmed_lines t \<and>
      map seg_id (normalizeDemoText t)
        = map (\<lambda>i. js ''demo-'' @ show_nat i) [0..<length (trimmed_lines t)] \<and>
      distinct (map seg_id (normalizeDemoText t)) \<and>
      [] \<notin> set (map seg_text (normalizeDemoText t))) \<and>
   (trimmed_lines t = [] \<longrightarrow>
      normalizeDemoText t = [\<lparr>seg_id = js ''demo-0'', seg_text = trim t\<rparr>])"
proof (intro conjI impI)
  assume ne: "trimmed_lines t \<noteq> []"
  let ?f = "\<lambda>i. js ''demo-'' @ show_nat i"
  have n: "normalizeDemoText t =
        map (\<lambda>(i, l). \<lparr>seg_id = ?f i, seg_text = l\<rparr>) (enumerate 0 (trimmed_lines t))"
    using ne normalizeDemoText_cases[of t] by simp
  show "length (normalizeDemoText t) = length (trimmed_lines t)"
    by (simp add: n)
  show tx: "map seg_text (normalizeDemoText t) = trimmed_lines t"
    unfolding n by (rule map_enumerate_text)
  show ids: "map seg_id (normalizeDemoText t) = map ?f [0..<length (trimmed_lines t)]"
    unfolding n using map_enumerate_id[of ?f 0 "trimmed_lines t"] by simp
  show "distinct (map seg_id (normalizeDemoText t))"
    unfolding ids by (rule demo_ids_distinct)
  show "[] \<notin> set (map seg_text (normalizeDemoText t))"
    unfolding tx by (simp add: trimmed_lines_def)
next
  assume "trimmed_lines t = []"
  then show "normalizeDemoText t = [\<lparr>seg_id = js ''demo-0'', seg_text = trim t\<rparr>]"
    using normalizeDemoText_cases[of t] by simp
qed

lemma segments_eqI:
  "map seg_text xs = map seg_text ys \<Longrightarrow> map seg_id xs = map seg_id ys \<Longrightarrow> xs = (ys :: ThreadSegment list)"
proof (induction xs arbitrary: ys)
  case Nil then show ?case by simp
next
  case (Cons x xs)
  then obtain y ys' where ys: "ys = y # ys'" by (cases ys) auto
  with Cons show ?case by auto
qed

lemma show_nat_digit: "n < 10 \<Longrightarrow> show_nat n = [48 + n]"
  by (subst show_nat.simps) simp

lemma js_eq_Nil [simp]: "js s = [] \<longleftrightarrow> s = []"
  by (simp add: js_def)

lemma normalizeDemoText_abc: "normalizeDemoText pasted_abc = segs3"
  by (simp add: normalizeDemoText_def Let_def pasted_abc_def js_def trim_def is_space_def
      segs3_def show_nat_digit)

theorem normalizeDemoText_lines_witness:
  "trimmed_lines pasted_abc = [js ''a'', js ''b'', js ''c''] \<and>
   normalizeDemoText pasted_abc = segs3 \<and>
   trimmed_lines (js ''  '') = [] \<and>
   normalizeDemoText (js ''  '') = [\<lparr>seg_id = js ''demo-0'', seg_text = []\<rparr>]"
proof -
  have l: "trimmed_lines pasted_abc = [js ''a'', js ''b'', js ''c'']"
    by (simp add: pasted_abc_def trimmed_lines_def js_def trim_def is_space_def)
  have e: "trimmed_lines (js ''  '') = []" "trim (js ''  '') = []"
    by (simp_all add: trimmed_lines_def js_def trim_def is_space_def)
  have u: "[0..<3] = [0, 1, 2]" by (simp add: upt_conv_Cons)
  have "trimmed_lines pasted_abc \<noteq> []" by (simp add: l)
  with normalizeDemoText_lines[of pasted_abc]
  have "map seg_text (normalizeDemoText pasted_abc) = trimmed_lines pasted_abc"
    and "map seg_id (normalizeDemoText pasted_abc)
         = map (\<lambda>i. js ''demo-'' @ show_nat i) [0..<length (trimmed_lines pasted_abc)]"
    by blast+
  then have "map seg_text (normalizeDemoText pasted_abc) = map seg_text segs3"
    and "map seg_id (normalizeDemoText pasted_abc) = map seg_id segs3"
    by (simp_all add: l u segs3_def show_nat_digit js_def)
  then have "normalizeDemoText pasted_abc = segs3"
    by (rule segments_eqI)
  with normalizeDemoText_lines[of "js ''  ''"] l e show ?thesis by simp
qed

section \<open>Properties of the remote path\<close>

lemma blank_dropWhile: "blank (dropWhile is_space s) = blank s"
  by (induction s) (auto simp: blank_def)

lemma blank_collapse_ws: "blank (collapse_ws s) = blank s"
proof (induction s rule: collapse_ws.induct)
  case 1 show ?case by simp
next
  case (2 c cs)
  show ?case
  proof (cases "is_space c")
    case True
    have "blank (collapse_ws (c # cs)) = blank (collapse_ws (dropWhile is_space cs))"
      using True by (simp add: blank_def is_space_32)
    also have "\<dots> = blank (dropWhile is_space cs)" using 2(1)[OF True] .
    also have "\<dots> = blank (c # cs)" using True blank_dropWhile[of cs] by (simp add: blank_def)
    finally show ?thesis .
  next
    case False
    then show ?thesis by (simp add: blank_def)
  qed
qed

lemma cleanText_empty_iff: "cleanText s = [] \<longleftrightarrow> blank s"
  by (simp add: cleanText_eq trim_empty_iff blank_collapse_ws)

lemma cleanText_not_blank: "cleanText s \<noteq> [] \<Longrightarrow> \<not> blank (cleanText s)"
  unfolding cleanText_eq by (rule trim_nonempty_not_blank)

lemma thread_payload_segments:
  "seg \<in> set (payload_segments (thread_payload url user tweets)) \<Longrightarrow>
     seg_text seg \<noteq> [] \<and> \<not> blank (seg_text seg)"
  by (auto simp: thread_payload_def Let_def dest: cleanText_not_blank)

lemma root_only_segments:
  "payload_segments (root_only url ident rt user)
     = [\<lparr>seg_id = ident, seg_text = cleanText (or_empty (tweet_text rt))\<rparr>]"
  by (simp add: root_only_def)

lemma POST_payload:
  assumes "POST up token parsed = (Reply code (PayloadBody p w d), reqs)"
  shows "(\<exists>url ident rt user. p = root_only url ident rt user \<and> (w = None \<longrightarrow> length reqs = 1)) \<or>
         (\<exists>url user tweets. p = thread_payload url user tweets)"
  using assms
  by (auto simp: POST_def Let_def split: option.splits if_splits fetched.splits) blast

lemma extract_alice: "extractStatusId alice_url = Some (js ''42'')"
  by (simp add: alice_url_def js_def match_status_at_def slash_digits_def to_lower_def is_digit_def)

lemmas text_defs = cleanText_def trim_def is_space_def url_match_def url_tail_def non_space_run_def

lemmas route_defs = POST_def root_only_def json_data_def first_user_def tweet_conversation_id_def
  tweet_author_id_def tweet_text_def user_name_def user_username_def author_handle_def
  search_query_def or_empty_def truthy_def upstream_root_only_def Let_def

lemma clean_hello: "cleanText (js ''hello  world'') = js ''hello world''"
  by (simp add: text_defs js_def)

lemmas encode_defs = uri_unreserved_def leading_surrogate_def trailing_surrogate_def utf8_def
  hex_digit_def percent_byte_def percent_encode_def

lemma encode_alice_query:
  "encodeURIComponent (js ''conversation_id:42 from:alice'')
     = Some (js ''conversation_id%3A42%20from%3Aalice'')"
  by (simp add: js_def encode_defs)

lemma encode_lone_surrogate:
  "encodeURIComponent (js ''conversation_id:'' @ [55296] @ js '' from:alice'') = None"
  by (simp add: js_def encode_defs)

text \<open>
  C8. A request whose URL holds a status identifier, with no credential in the
  environment (the variable unset or empty), is answered with status 501 and the
  missing-token error, and no upstream request is made.
\<close>

theorem missing_credential:
  assumes "parsed = Some url" and "truthy (extractStatusId url)" and "\<not> truthy token"
  shows "POST up token parsed
           = (Reply 501 (ErrorBody missing_token_error (Some missing_token_hint) None), [])"
  using assms by (simp add: POST_def)

theorem missing_credential_witness:
  "extractStatusId alice_url = Some (js ''42'') \<and> truthy (extractStatusId alice_url) \<and>
   \<not> truthy None \<and> \<not> truthy (Some []) \<and>
   POST (upstream_root_only root_in_conversation) None (Some alice_url)
     = (Reply 501 (ErrorBody missing_token_error (Some missing_token_hint) None), []) \<and>
   POST (upstream_root_only root_in_conversation) (Some []) (Some alice_url)
     = (Reply 501 (ErrorBody missing_token_error (Some missing_token_hint) None), [])"
  using missing_credential[of "Some alice_url" alice_url None "upstream_root_only root_in_conversation"]
    missing_credential[of "Some alice_url" alice_url "Some []" "upstream_root_only root_in_conversation"]
    extract_alice
  by (simp add: truthy_def js_def)

lemma alice_facts:
  "truthy (extractStatusId alice_url)" "or_empty (extractStatusId alice_url) = js ''42''"
  "truthy (Some (js ''token''))" "or_empty (Some (js ''token'')) = js ''token''"
  by (simp_all add: extract_alice truthy_def or_empty_def)

lemma root_in_conversation_facts:
  "fetch_root (upstream_root_only rj) tok ident = Resolved True (Some rj)"
  "fetch_search (upstream_root_only rj) tok q = Resolved False None"
  "truthy (tweet_conversation_id (json_data (Some root_in_conversation)))"
  "truthy (tweet_author_id (json_data (Some root_in_conversation)))"
  "encodeURIComponent
     (search_query (tweet_conversation_id (json_data (Some root_in_conversation)))
        (first_user (Some root_in_conversation)))
   = Some (js ''conversation_id%3A42%20from%3Aalice'')"
  "root_only alice_url (js ''42'') (json_data (Some root_in_conversation))
     (first_user (Some root_in_conversation))
   = \<lparr>title = js ''Alice (1 post)'', authorHandle = Some (js ''@alice''),
      sourceUrl = Some alice_url,
      payload_segments = [\<lparr>seg_id = js ''42'', seg_text = js ''hello world''\<rparr>]\<rparr>"
  by (simp_all add: upstream_root_only_def root_in_conversation_def json_data_def first_user_def
      tweet_conversation_id_def tweet_author_id_def tweet_text_def user_name_def
      user_username_def author_handle_def search_query_def or_empty_def truthy_def
      root_only_def clean_hello)
     (simp_all add: js_def encode_defs)

lemma root_lone_surrogate_facts:
  "fetch_root (upstream_search_rejected rj) tok ident = Resolved True (Some rj)"
  "fetch_search (upstream_search_rejected rj) tok q = Rejected"
  "truthy (tweet_conversation_id (json_data (Some root_lone_surrogate)))"
  "truthy (tweet_author_id (json_data (Some root_lone_surrogate)))"
  "encodeURIComponent
     (search_query (tweet_conversation_id (json_data (Some root_lone_surrogate)))
        (first_user (Some root_lone_surrogate)))
   = None"
  by (simp_all add: upstream_search_rejected_def root_lone_surrogate_def json_data_def
      first_user_def tweet_conversation_id_def tweet_author_id_def user_username_def
      search_query_def or_empty_def truthy_def)
     (simp_all add: js_def encode_defs)

lemma root_no_conversation_facts:
  "\<not> truthy (tweet_conversation_id (json_data (Some root_no_conversation)))"
  "root_only alice_url (js ''42'') (json_data (Some root_no_conversation))
     (first_user (Some root_no_conversation))
   = \<lparr>title = js ''Thread (1 post)'', authorHandle = None,
      sourceUrl = Some alice_url,
      payload_segments = [\<lparr>seg_id = js ''42'', seg_text = js ''hello world''\<rparr>]\<rparr>"
  by (simp_all add: root_no_conversation_def json_data_def first_user_def
      tweet_conversation_id_def tweet_author_id_def tweet_text_def user_name_def
      user_username_def author_handle_def or_empty_def truthy_def
      root_only_def clean_hello)

text \<open>
  C7, as the code has it. When the root fetch succeeds with a conversation id and an
  author id, the search query can be encoded, and the search request is answered with a
  non-success status, the route answers 200 (a success): the payload has the single
  segment of the root post's cleaned text, and the warning is attached. The route catches
  nothing: when the search fetch rejects, or when \<^verbatim>\<open>encodeURIComponent\<close> raises on
  the query (then before any search request), it throws and gives no answer.
\<close>

theorem search_failure_degrades:
  assumes "parsed = Some url" and "truthy (extractStatusId url)" and "truthy token"
    and "fetch_root up (or_empty token) (or_empty (extractStatusId url)) = Resolved True rootJson"
    and "truthy (tweet_conversation_id (json_data rootJson))"
    and "truthy (tweet_author_id (json_data rootJson))"
  shows "(encodeURIComponent
            (search_query (tweet_conversation_id (json_data rootJson)) (first_user rootJson))
            = Some q \<and>
          fetch_search up (or_empty token) q = Resolved False searchJson \<longrightarrow>
            POST up token parsed
              = (Reply 200
                   (PayloadBody
                      (root_only url (or_empty (extractStatusId url)) (json_data rootJson)
                         (first_user rootJson))
                      (Some search_warning) (Some (SearchJson searchJson))),
                 [RootRequest (or_empty token) (or_empty (extractStatusId url)),
                  SearchRequest (or_empty token) q])) \<and>
         (encodeURIComponent
            (search_query (tweet_conversation_id (json_data rootJson)) (first_user rootJson))
            = Some q \<and>
          fetch_search up (or_empty token) q = Rejected \<longrightarrow>
            POST up token parsed
              = (Throws FetchError,
                 [RootRequest (or_empty token) (or_empty (extractStatusId url)),
                  SearchRequest (or_empty token) q])) \<and>
         (encodeURIComponent
            (search_query (tweet_conversation_id (json_data rootJson)) (first_user rootJson))
            = None \<longrightarrow>
            POST up token parsed
              = (Throws URIError, [RootRequest (or_empty token) (or_empty (extractStatusId url))])) \<and>
         payload_segments
           (root_only url (or_empty (extractStatusId url)) (json_data rootJson) (first_user rootJson))
           = [\<lparr>seg_id = or_empty (extractStatusId url),
               seg_text = cleanText (or_empty (tweet_text (json_data rootJson)))\<rparr>]"
  using assms by (simp add: POST_def Let_def root_only_segments)

theorem search_failure_degrades_witness:
  "truthy (extractStatusId alice_url) \<and> truthy (Some (js ''token'')) \<and>
   truthy (tweet_conversation_id (json_data (Some root_in_conversation))) \<and>
   truthy (tweet_author_id (json_data (Some root_in_conversation))) \<and>
   POST (upstream_root_only root_in_conversation) (Some (js ''token'')) (Some alice_url)
     = (Reply 200
          (PayloadBody
             \<lparr>title = js ''Alice (1 post)'', authorHandle = Some (js ''@alice''),
              sourceUrl = Some alice_url,
              payload_segments = [\<lparr>seg_id = js ''42'', seg_text = js ''hello world''\<rparr>]\<rparr>
             (Some search_warning) (Some (SearchJson None))),
        [RootRequest (js ''token'') (js ''42''),
         SearchRequest (js ''token'') (js ''conversation_id%3A42%20from%3Aalice'')]) \<and>
   POST (upstream_search_rejected root_in_conversation) (Some (js ''token'')) (Some alice_url)
     = (Throws FetchError,
        [RootRequest (js ''token'') (js ''42''),
         SearchRequest (js ''token'') (js ''conversation_id%3A42%20from%3Aalice'')]) \<and>
   POST (upstream_search_rejected root_lone_surrogate) (Some (js ''token'')) (Some alice_url)
     = (Throws URIError, [RootRequest (js ''token'') (js ''42'')])"
  using search_failure_degrades[OF refl alice_facts(1) alice_facts(3)
      root_in_conversation_facts(1) root_in_conversation_facts(3) root_in_conversation_facts(4),
      of "js ''conversation_id%3A42%20from%3Aalice''" None]
    search_failure_degrades[OF refl alice_facts(1) alice_facts(3)
      root_lone_surrogate_facts(1) root_in_conversation_facts(3) root_in_conversation_facts(4),
      of "js ''conversation_id%3A42%20from%3Aalice''" None]
    search_failure_degrades[OF refl alice_facts(1) alice_facts(3)
      root_lone_surrogate_facts(1) root_lone_surrogate_facts(3) root_lone_surrogate_facts(4),
      of "js ''conversation_id%3A42%20from%3Aalice''" None]
    alice_facts root_in_conversation_facts(2-6) root_lone_surrogate_facts(2-5)
  by simp

text \<open>
  C7 as stated fails where the search fails without a response: with the root post found
  and a conversation id and an author id present, a search fetch that rejects makes the
  route throw, and so does a conversation id that \<^verbatim>\<open>encodeURIComponent\<close> refuses (a
  surrogate on its own), then with the root request only. Neither is a success.
\<close>

theorem search_failure_counterexample:
  "fetch_root (upstream_search_rejected root_in_conversation) (js ''token'') (js ''42'')
     = Resolved True (Some root_in_conversation) \<and>
   fetch_search (upstream_search_rejected root_in_conversation) (js ''token'')
     (js ''conversation_id%3A42%20from%3Aalice'') = Rejected \<and>
   POST (upstream_search_rejected root_in_conversation) (Some (js ''token'')) (Some alice_url)
     = (Throws FetchError,
        [RootRequest (js ''token'') (js ''42''),
         SearchRequest (js ''token'') (js ''conversation_id%3A42%20from%3Aalice'')]) \<and>
   POST (upstream_search_rejected root_lone_surrogate) (Some (js ''token'')) (Some alice_url)
     = (Throws URIError, [RootRequest (js ''token'') (js ''42'')])"
  by (simp add: route_defs upstream_search_rejected_def extract_alice
      root_in_conversation_def root_lone_surrogate_def)
     (simp add: js_def encode_defs)

text \<open>
  C9, as the code has it. When the root fetch succeeds and the root post has no
  conversation id or no author id, the route answers 200 with the single segment of the
  root post's cleaned text and makes no search request; the title is
  \<^verbatim>\<open><name> (1 post)\<close> when the author's display name is known and \<^verbatim>\<open>Thread (1 post)\<close>
  otherwise: the singular, not the \<^verbatim>\<open>(<n> posts)\<close> of the full path.
\<close>

theorem root_only_degrade:
  assumes "parsed = Some url" and "truthy (extractStatusId url)" and "truthy token"
    and "fetch_root up (or_empty token) (or_empty (extractStatusId url)) = Resolved True rootJson"
    and "\<not> truthy (tweet_conversation_id (json_data rootJson)) \<or>
         \<not> truthy (tweet_author_id (json_data rootJson))"
  shows "POST up token parsed
           = (Reply 200
                (PayloadBody
                   (root_only url (or_empty (extractStatusId url)) (json_data rootJson)
                      (first_user rootJson))
                   None None),
              [RootRequest (or_empty token) (or_empty (extractStatusId url))]) \<and>
         payload_segments
           (root_only url (or_empty (extractStatusId url)) (json_data rootJson) (first_user rootJson))
           = [\<lparr>seg_id = or_empty (extractStatusId url),
               seg_text = cleanText (or_empty (tweet_text (json_data rootJson)))\<rparr>] \<and>
         title
           (root_only url (or_empty (extractStatusId url)) (json_data rootJson) (first_user rootJson))
           = (if truthy (user_name (first_user rootJson))
              then or_empty (user_name (first_user rootJson)) @ js '' (1 post)''
              else js ''Thread (1 post)'')"
  using assms by (auto simp: POST_def Let_def root_only_def)

theorem root_only_degrade_witness:
  "truthy (extractStatusId alice_url) \<and> truthy (Some (js ''token'')) \<and>
   \<not> truthy (tweet_conversation_id (json_data (Some root_no_conversation))) \<and>
   POST (upstream_root_only root_no_conversation) (Some (js ''token'')) (Some alice_url)
     = (Reply 200
          (PayloadBody
             \<lparr>title = js ''Thread (1 post)'', authorHandle = None, sourceUrl = Some alice_url,
              payload_segments = [\<lparr>seg_id = js ''42'', seg_text = js ''hello world''\<rparr>]\<rparr>
             None None),
        [RootRequest (js ''token'') (js ''42'')]) \<and>
   title (root_only alice_url (js ''42'') (json_data (Some root_no_conversation))
            (first_user (Some root_no_conversation))) = js ''Thread (1 post)''"
  using root_only_degrade[OF refl alice_facts(1) alice_facts(3)
      root_in_conversation_facts(1) disjI1[OF root_no_conversation_facts(1)]]
    alice_facts root_no_conversation_facts
  by simp
text \<open>
  C9 as stated fails: for a root post without conversation id and without known author
  the title is \<^verbatim>\<open>Thread (1 post)\<close>, which is not \<^verbatim>\<open>Thread (1 posts)\<close>.
\<close>

theorem title_counterexample:
  "POST (upstream_root_only root_no_conversation) (Some (js ''token'')) (Some alice_url)
     = (Reply 200
          (PayloadBody
             \<lparr>title = js ''Thread (1 post)'', authorHandle = None, sourceUrl = Some alice_url,
              payload_segments = [\<lparr>seg_id = js ''42'', seg_text = js ''hello world''\<rparr>]\<rparr>
             None None),
        [RootRequest (js ''token'') (js ''42'')]) \<and>
   js ''Thread (1 post)'' \<noteq> js ''Thread (1 posts)''"
  by (simp add: route_defs extract_alice clean_hello root_no_conversation_def) (simp add: js_def)

lemma normalizeDemoText_texts:
  "trimmed_lines t \<noteq> [] \<Longrightarrow> map seg_text (normalizeDemoText t) = trimmed_lines t"
  using normalizeDemoText_cases[of t] map_enumerate_text[of _ 0 "trimmed_lines t"] by simp

lemma trimmed_lines_not_blank: "l \<in> set (trimmed_lines t) \<Longrightarrow> l \<noteq> [] \<and> \<not> blank l"
  by (auto simp: trimmed_lines_def dest: trim_nonempty_not_blank)

lemma normalizeDemoText_segment:
  assumes "seg \<in> set (normalizeDemoText t)"
  shows "(seg_text seg = [] \<or> \<not> blank (seg_text seg)) \<and>
         (seg_text seg = [] \<longrightarrow> normalizeDemoText t = [seg] \<and> blank t)"
proof (cases "trimmed_lines t = []")
  case True
  then have "normalizeDemoText t = [\<lparr>seg_id = js ''demo-0'', seg_text = trim t\<rparr>]"
    using normalizeDemoText_cases[of t] by simp
  with assms show ?thesis
    using trim_nonempty_not_blank[of t] trim_empty_iff[of t] by auto
next
  case False
  then have "map seg_text (normalizeDemoText t) = trimmed_lines t"
    by (rule normalizeDemoText_texts)
  with assms have "seg_text seg \<in> set (trimmed_lines t)"
    by (metis image_eqI set_map)
  then show ?thesis using trimmed_lines_not_blank by blast
qed

lemma POST_segment:
  assumes "POST up token parsed = (Reply code (PayloadBody p w d), reqs)"
    and "seg \<in> set (payload_segments p)"
  shows "(seg_text seg = [] \<or> \<not> blank (seg_text seg)) \<and>
         (seg_text seg = [] \<longrightarrow> payload_segments p = [seg] \<and> (w = None \<longrightarrow> length reqs = 1))"
proof -
  from POST_payload[OF assms(1)] show ?thesis
  proof (elim disjE exE conjE)
    fix url ident rt user
    assume p: "p = root_only url ident rt user" and w: "w = None \<longrightarrow> length reqs = 1"
    with assms(2) have "seg = \<lparr>seg_id = ident, seg_text = cleanText (or_empty (tweet_text rt))\<rparr>"
      by (simp add: root_only_segments)
    with p w show ?thesis
      using cleanText_not_blank[of "or_empty (tweet_text rt)"] by (auto simp: root_only_segments)
  next
    fix url user tweets
    assume "p = thread_payload url user tweets"
    with assms(2) thread_payload_segments[of seg url user tweets] show ?thesis by simp
  qed
qed

lemma POST_alice:
  "POST (upstream_root_only root_in_conversation) (Some (js ''token'')) (Some alice_url)
     = (Reply 200
          (PayloadBody
             \<lparr>title = js ''Alice (1 post)'', authorHandle = Some (js ''@alice''),
              sourceUrl = Some alice_url,
              payload_segments = [\<lparr>seg_id = js ''42'', seg_text = js ''hello world''\<rparr>]\<rparr>
             (Some search_warning) (Some (SearchJson None))),
        [RootRequest (js ''token'') (js ''42''),
         SearchRequest (js ''token'') (js ''conversation_id%3A42%20from%3Aalice'')])"
  using alice_facts root_in_conversation_facts
  by (simp add: POST_def Let_def)

text \<open>
  C6, as the code has it. No segment of a payload of \<open>normalizeDemoText\<close> or of the route
  has a whitespace-only text: a text is empty or has a character that is not whitespace.
  An empty text is not excluded where the result is a single segment by construction:
  it occurs only as the text of the only segment, in the local fallback (the pasted
  input is then empty or whitespace-only) and in the two root-only answers of the route;
  the full path (no warning, two upstream requests) has no empty text.
\<close>

theorem no_whitespace_only_segment:
  "(\<forall>seg\<in>set (normalizeDemoText t).
      (seg_text seg = [] \<or> \<not> blank (seg_text seg)) \<and>
      (seg_text seg = [] \<longrightarrow> normalizeDemoText t = [seg] \<and> blank t)) \<and>
   (POST up token parsed = (Reply code (PayloadBody p w d), reqs) \<longrightarrow>
      (\<forall>seg\<in>set (payload_segments p).
         (seg_text seg = [] \<or> \<not> blank (seg_text seg)) \<and>
         (seg_text seg = [] \<longrightarrow>
            payload_segments p = [seg] \<and> (w = None \<longrightarrow> length reqs = 1))))"
  using normalizeDemoText_segment[of _ t] POST_segment[of up token parsed code p w d reqs]
  by blast

theorem no_whitespace_only_segment_witness:
  "normalizeDemoText pasted_abc = segs3 \<and>
   \<not> blank (js ''a'') \<and> \<not> blank (js ''b'') \<and> \<not> blank (js ''c'') \<and>
   POST (upstream_root_only root_in_conversation) (Some (js ''token'')) (Some alice_url)
     = (Reply 200
          (PayloadBody
             \<lparr>title = js ''Alice (1 post)'', authorHandle = Some (js ''@alice''),
              sourceUrl = Some alice_url,
              payload_segments = [\<lparr>seg_id = js ''42'', seg_text = js ''hello world''\<rparr>]\<rparr>
             (Some search_warning) (Some (SearchJson None))),
        [RootRequest (js ''token'') (js ''42''),
         SearchRequest (js ''token'') (js ''conversation_id%3A42%20from%3Aalice'')]) \<and>
   \<not> blank (js ''hello world'')"
proof -
  note t = no_whitespace_only_segment[of pasted_abc "upstream_root_only root_in_conversation"
      "Some (js ''token'')" "Some alice_url" 200
      "\<lparr>title = js ''Alice (1 post)'', authorHandle = Some (js ''@alice''),
        sourceUrl = Some alice_url,
        payload_segments = [\<lparr>seg_id = js ''42'', seg_text = js ''hello world''\<rparr>]\<rparr>"
      "Some search_warning" "Some (SearchJson None)"
      "[RootRequest (js ''token'') (js ''42''),
        SearchRequest (js ''token'') (js ''conversation_id%3A42%20from%3Aalice'')]"]
  have a: "normalizeDemoText pasted_abc = segs3"
    by (rule normalizeDemoText_abc)
  from t have "\<forall>seg\<in>set (normalizeDemoText pasted_abc). seg_text seg = [] \<or> \<not> blank (seg_text seg)"
    by blast
  then have b: "\<not> blank (js ''a'') \<and> \<not> blank (js ''b'') \<and> \<not> blank (js ''c'')"
    by (simp add: a segs3_def)
  from t POST_alice
  have "\<forall>seg\<in>set [\<lparr>seg_id = js ''42'', seg_text = js ''hello world''\<rparr>].
          seg_text seg = [] \<or> \<not> blank (seg_text seg)"
    by simp
  then have c: "\<not> blank (js ''hello world'')"
    by simp
  from a b c POST_alice show ?thesis by simp
qed

text \<open>
  C6 as stated fails on the single-segment results: a whitespace-only pasted text gives
  the one segment \<^verbatim>\<open>demo-0\<close> with the empty text, and a root response without
  \<^verbatim>\<open>data\<close> gives the one segment of the post id with the empty text.
\<close>

theorem empty_segment_counterexample:
  "normalizeDemoText (js ''  '') = [\<lparr>seg_id = js ''demo-0'', seg_text = []\<rparr>] \<and>
   POST (upstream_root_only root_not_found) (Some (js ''token'')) (Some alice_url)
     = (Reply 200
          (PayloadBody
             \<lparr>title = js ''Thread (1 post)'', authorHandle = None, sourceUrl = Some alice_url,
              payload_segments = [\<lparr>seg_id = js ''42'', seg_text = []\<rparr>]\<rparr>
             None None),
        [RootRequest (js ''token'') (js ''42'')]) \<and>
   blank []"
proof -
  have "cleanText [] = []" by (simp add: text_defs)
  then have "POST (upstream_root_only root_not_found) (Some (js ''token'')) (Some alice_url)
     = (Reply 200
          (PayloadBody
             \<lparr>title = js ''Thread (1 post)'', authorHandle = None, sourceUrl = Some alice_url,
              payload_segments = [\<lparr>seg_id = js ''42'', seg_text = []\<rparr>]\<rparr>
             None None),
        [RootRequest (js ''token'') (js ''42'')])"
    by (simp add: route_defs extract_alice root_not_found_def)
  moreover have "normalizeDemoText (js ''  '') = [\<lparr>seg_id = js ''demo-0'', seg_text = []\<rparr>]"
    by (simp add: normalizeDemoText_def Let_def js_def trim_def is_space_def)
  ultimately show ?thesis by (simp add: blank_def)
qed

end
